theory Spec2Isabelle
  imports Complex_Main
begin

section \<open>Three-phase power factor monitor: the measurement core\<close>

text \<open>
  The development embeds the numerical core of
  \<^verbatim>\<open>Mini_Project/arduino/power_factor_monitor.ino\<close>: the sampling loop and the
  post-processing of \<^verbatim>\<open>measurePhase\<close>, and the aggregation and alert decision of
  \<^verbatim>\<open>loop\<close>.

  Numbers: the firmware computes in C \<^verbatim>\<open>float\<close>/\<^verbatim>\<open>double\<close>. Here every such value is
  a \<^typ>\<open>real\<close>, so rounding, overflow and NaN are not represented; the theorems are
  about the exact arithmetic the firmware's formulas denote. The raw ADC codes are
  \<^typ>\<open>int\<close>, as \<^verbatim>\<open>analogRead\<close> returns them.

  Input: the two \<^verbatim>\<open>analogRead\<close> calls of iteration \<open>i\<close> are the pair \<open>reads i\<close>
  (voltage code first, current code second). The busy wait on \<^verbatim>\<open>micros()\<close> only
  delays the reads and is left out.
\<close>

subsection \<open>Constants\<close>

definition ADC_MAX :: real where
  "ADC_MAX = 4095"

definition ADC_VREF :: real where
  "ADC_VREF = 33 / 10"

definition VOLTAGE_CALIBRATION :: real where
  "VOLTAGE_CALIBRATION = 23426 / 100"

definition ACS712_SENSITIVITY :: real where
  "ACS712_SENSITIVITY = 66 / 1000"

definition ACS712_OFFSET :: real where
  "ACS712_OFFSET = ADC_VREF / 2"

definition SAMPLES_PER_CYCLE :: nat where
  "SAMPLES_PER_CYCLE = 200"

definition NUM_CYCLES :: nat where
  "NUM_CYCLES = 5"

definition NUM_PHASES :: nat where
  "NUM_PHASES = 3"

definition PF_THRESHOLD :: real where
  "PF_THRESHOLD = 85 / 100"

subsection \<open>Macros of the Arduino core\<close>

text \<open>
  Modelled from the spec: \<^verbatim>\<open>constrain\<close>, \<^verbatim>\<open>abs\<close> and \<^verbatim>\<open>max\<close> are macros of the
  Arduino core (\<^verbatim>\<open>Arduino.h\<close>), which is not part of the repository. The spec reads
  them as clamping to a closed interval, absolute value and maximum. The definitions
  below are the conditional expressions the core's macros expand to:
  \<^verbatim>\<open>((amt)<(low)?(low):((amt)>(high)?(high):(amt)))\<close>, \<^verbatim>\<open>((x)>0?(x):-(x))\<close> and
  \<^verbatim>\<open>((a)>(b)?(a):(b))\<close>.
\<close>

definition constrain :: "real \<Rightarrow> real \<Rightarrow> real \<Rightarrow> real" where
  "constrain amt low high = (if amt < low then low else if amt > high then high else amt)"

definition abs_f :: "real \<Rightarrow> real" where
  "abs_f x = (if x > 0 then x else - x)"

definition max_f :: "real \<Rightarrow> real \<Rightarrow> real" where
  "max_f a b = (if a > b then a else b)"

subsection \<open>Per-phase measurement\<close>

record PhaseData =
  voltageRms :: real
  currentRms :: real
  powerFactor :: real
  realPower :: real
  apparentPower :: real
  reactivePower :: real

text \<open>The local variables of \<^verbatim>\<open>measurePhase\<close> that live across loop iterations.\<close>

record SampleAcc =
  sumVSq :: real
  sumISq :: real
  sumVI :: real
  prevV :: real
  prevI :: real

definition totalSamples :: nat where
  "totalSamples = SAMPLES_PER_CYCLE * NUM_CYCLES"

text \<open>The zero-centred instantaneous voltage \<^verbatim>\<open>v\<close> of a raw code.\<close>

definition sample_v :: "int \<Rightarrow> real" where
  "sample_v rawV = (let adcV = (real_of_int rawV / ADC_MAX) * ADC_VREF in adcV - ADC_VREF / 2)"

text \<open>The instantaneous current \<^verbatim>\<open>current\<close> of a raw code.\<close>

definition sample_current :: "int \<Rightarrow> real" where
  "sample_current rawI =
     (let adcI = (real_of_int rawI / ADC_MAX) * ADC_VREF
      in (adcI - ACS712_OFFSET) / ACS712_SENSITIVITY)"

text \<open>One iteration of the sampling loop, on the pair of codes read in it.\<close>

definition sample_step :: "int \<times> int \<Rightarrow> SampleAcc \<Rightarrow> SampleAcc" where
  "sample_step rd st =
     (let v = sample_v (fst rd);
          current = sample_current (snd rd)
      in st\<lparr> sumVSq := sumVSq st + v * v,
              sumISq := sumISq st + current * current,
              sumVI := sumVI st + v * current,
              prevV := v,
              prevI := current \<rparr>)"

definition sample_init :: SampleAcc where
  "sample_init = \<lparr> sumVSq = 0, sumISq = 0, sumVI = 0, prevV = 0, prevI = 0 \<rparr>"

text \<open>The loop \<^verbatim>\<open>for (int i = 0; i < n; i++)\<close>.\<close>

definition sample_loop :: "(nat \<Rightarrow> int \<times> int) \<Rightarrow> nat \<Rightarrow> SampleAcc" where
  "sample_loop reads n = fold (\<lambda>i st. sample_step (reads i) st) [0..<n] sample_init"

definition result_init :: PhaseData where
  "result_init = \<lparr> voltageRms = 0, currentRms = 0, powerFactor = 0,
                   realPower = 0, apparentPower = 0, reactivePower = 0 \<rparr>"

text \<open>The inner block \<^verbatim>\<open>if (result.apparentPower > 0) { ... }\<close>.\<close>

definition set_powerFactor :: "PhaseData \<Rightarrow> PhaseData" where
  "set_powerFactor r =
     (if apparentPower r > 0
      then (let r1 = r\<lparr> powerFactor := realPower r / apparentPower r \<rparr>;
                r2 = r1\<lparr> powerFactor := constrain (powerFactor r1) (- 1) 1 \<rparr>
            in r2\<lparr> powerFactor := abs_f (powerFactor r2) \<rparr>)
      else r)"

text \<open>The block \<^verbatim>\<open>if (result.currentRms > 0.05) { ... }\<close>.\<close>

definition set_power :: "real \<Rightarrow> PhaseData \<Rightarrow> PhaseData" where
  "set_power sVI r =
     (if currentRms r > 5 / 100
      then (let avgVI = sVI / real totalSamples;
                r1 = r\<lparr> realPower := avgVI * VOLTAGE_CALIBRATION \<rparr>;
                r2 = r1\<lparr> apparentPower := voltageRms r1 * currentRms r1 \<rparr>;
                r3 = set_powerFactor r2
            in r3\<lparr> reactivePower :=
                      sqrt (max_f 0 (apparentPower r3 * apparentPower r3
                                     - realPower r3 * realPower r3)) \<rparr>)
      else r)"

text \<open>Everything after the sampling loop.\<close>

definition finish :: "SampleAcc \<Rightarrow> PhaseData" where
  "finish st =
     (let r1 = result_init\<lparr> voltageRms :=
                  sqrt (sumVSq st / real totalSamples) * VOLTAGE_CALIBRATION \<rparr>;
          r2 = r1\<lparr> currentRms := sqrt (sumISq st / real totalSamples) \<rparr>
      in set_power (sumVI st) r2)"

definition measurePhase :: "(nat \<Rightarrow> int \<times> int) \<Rightarrow> PhaseData" where
  "measurePhase reads = finish (sample_loop reads totalSamples)"

subsection \<open>The sampling loop without the retained samples\<close>

text \<open>
  The accumulation with the assignments to \<^verbatim>\<open>prevV\<close> and \<^verbatim>\<open>prevI\<close> removed; both
  keep their initial value.
\<close>

definition sample_step_noprev :: "int \<times> int \<Rightarrow> SampleAcc \<Rightarrow> SampleAcc" where
  "sample_step_noprev rd st =
     (let v = sample_v (fst rd);
          current = sample_current (snd rd)
      in st\<lparr> sumVSq := sumVSq st + v * v,
              sumISq := sumISq st + current * current,
              sumVI := sumVI st + v * current \<rparr>)"

definition sample_loop_noprev :: "(nat \<Rightarrow> int \<times> int) \<Rightarrow> nat \<Rightarrow> SampleAcc" where
  "sample_loop_noprev reads n =
     fold (\<lambda>i st. sample_step_noprev (reads i) st) [0..<n] sample_init"

definition measurePhase_noprev :: "(nat \<Rightarrow> int \<times> int) \<Rightarrow> PhaseData" where
  "measurePhase_noprev reads = finish (sample_loop_noprev reads totalSamples)"

subsection \<open>Aggregation and alert\<close>

text \<open>
  The local variables of \<^verbatim>\<open>loop\<close>. The alert threshold is the constant
  \<^verbatim>\<open>PF_THRESHOLD\<close> in the firmware; the functions below take it as an argument and
  \<open>loop_cycle\<close> passes the constant.
\<close>

record LoopState =
  totalRealPower :: real
  totalApparentPower :: real
  anyLowPF :: bool
  overallPF :: real
  totalReactivePower :: real

definition loop_init :: LoopState where
  "loop_init = \<lparr> totalRealPower = 0, totalApparentPower = 0, anyLowPF = False,
                 overallPF = 0, totalReactivePower = 0 \<rparr>"

text \<open>The body of the loop over the phases, for the phase just measured.\<close>

definition phase_step :: "real \<Rightarrow> PhaseData \<Rightarrow> LoopState \<Rightarrow> LoopState" where
  "phase_step thr p st =
     (let st1 = st\<lparr> totalRealPower := totalRealPower st + realPower p \<rparr>;
          st2 = st1\<lparr> totalApparentPower := totalApparentPower st1 + apparentPower p \<rparr>
      in if powerFactor p > 1 / 100 \<and> powerFactor p < thr
         then st2\<lparr> anyLowPF := True \<rparr> else st2)"

text \<open>The block \<^verbatim>\<open>if (totalApparentPower > 0) { ... }\<close>.\<close>

definition overall_step :: "LoopState \<Rightarrow> LoopState" where
  "overall_step st =
     (if totalApparentPower st > 0
      then (let st1 = st\<lparr> overallPF := totalRealPower st / totalApparentPower st \<rparr>;
                st2 = st1\<lparr> overallPF := constrain (abs_f (overallPF st1)) 0 1 \<rparr>
            in st2\<lparr> totalReactivePower :=
                       sqrt (max_f 0 (totalApparentPower st2 * totalApparentPower st2
                                      - totalRealPower st2 * totalRealPower st2)) \<rparr>)
      else st)"

text \<open>
  The loop over the \<^verbatim>\<open>NUM_PHASES\<close> entries of \<^verbatim>\<open>phases[]\<close>, in index order, followed
  by the overall block.
\<close>

definition aggregate :: "real \<Rightarrow> PhaseData \<Rightarrow> PhaseData \<Rightarrow> PhaseData \<Rightarrow> LoopState" where
  "aggregate thr pR pY pB = overall_step (fold (phase_step thr) [pR, pY, pB] loop_init)"

text \<open>
  One measuring cycle of \<^verbatim>\<open>loop\<close>: the three phases R, Y, B are measured in this
  order, each on its own sample stream, and aggregated. The reconnection check and
  the send interval that decide whether a cycle starts, the serial output, the LED
  and the HTTP request are outside the model.
\<close>

definition loop_cycle ::
  "(nat \<Rightarrow> int \<times> int) \<Rightarrow> (nat \<Rightarrow> int \<times> int) \<Rightarrow> (nat \<Rightarrow> int \<times> int) \<Rightarrow> LoopState" where
  "loop_cycle readsR readsY readsB =
     aggregate PF_THRESHOLD (measurePhase readsR) (measurePhase readsY) (measurePhase readsB)"

subsection \<open>Instrumented arithmetic\<close>

text \<open>
  The firmware has no exceptions; a division by zero or the square root of a negative
  number would produce an infinity or a NaN. The instrumented model below repeats
  \<^verbatim>\<open>measurePhase\<close> with every division and every square root of the function body
  checked: such an operation yields \<open>None\<close>, and \<open>None\<close> propagates to the result.
  The division that computes \<^verbatim>\<open>sampleInterval\<close> is checked too, although its value
  only drives the busy wait.
\<close>

definition AC_FREQUENCY :: real where
  "AC_FREQUENCY = 50"

definition CYCLE_PERIOD_US :: real where
  "CYCLE_PERIOD_US = (1 / AC_FREQUENCY) * 1000000"

definition div_chk :: "real \<Rightarrow> real \<Rightarrow> real option" where
  "div_chk a b = (if b = 0 then None else Some (a / b))"

definition sqrt_chk :: "real \<Rightarrow> real option" where
  "sqrt_chk x = (if x < 0 then None else Some (sqrt x))"

definition sample_v_chk :: "int \<Rightarrow> real option" where
  "sample_v_chk rawV =
     (case div_chk (real_of_int rawV) ADC_MAX of None \<Rightarrow> None
      | Some q \<Rightarrow>
          (case div_chk ADC_VREF 2 of None \<Rightarrow> None
           | Some h \<Rightarrow> Some (q * ADC_VREF - h)))"

definition sample_current_chk :: "int \<Rightarrow> real option" where
  "sample_current_chk rawI =
     (case div_chk (real_of_int rawI) ADC_MAX of None \<Rightarrow> None
      | Some q \<Rightarrow> div_chk (q * ADC_VREF - ACS712_OFFSET) ACS712_SENSITIVITY)"

definition sample_step_chk :: "int \<times> int \<Rightarrow> SampleAcc \<Rightarrow> SampleAcc option" where
  "sample_step_chk rd st =
     (case sample_v_chk (fst rd) of None \<Rightarrow> None
      | Some v \<Rightarrow>
          (case sample_current_chk (snd rd) of None \<Rightarrow> None
           | Some current \<Rightarrow>
               Some (st\<lparr> sumVSq := sumVSq st + v * v,
                         sumISq := sumISq st + current * current,
                         sumVI := sumVI st + v * current,
                         prevV := v,
                         prevI := current \<rparr>)))"

definition sample_loop_chk :: "(nat \<Rightarrow> int \<times> int) \<Rightarrow> nat \<Rightarrow> SampleAcc option" where
  "sample_loop_chk reads n =
     fold (\<lambda>i m. case m of None \<Rightarrow> None | Some st \<Rightarrow> sample_step_chk (reads i) st)
          [0..<n] (Some sample_init)"

definition set_powerFactor_chk :: "PhaseData \<Rightarrow> PhaseData option" where
  "set_powerFactor_chk r =
     (if apparentPower r > 0
      then (case div_chk (realPower r) (apparentPower r) of None \<Rightarrow> None
            | Some q \<Rightarrow>
                (let r1 = r\<lparr> powerFactor := q \<rparr>;
                     r2 = r1\<lparr> powerFactor := constrain (powerFactor r1) (- 1) 1 \<rparr>
                 in Some (r2\<lparr> powerFactor := abs_f (powerFactor r2) \<rparr>)))
      else Some r)"

definition set_power_chk :: "real \<Rightarrow> PhaseData \<Rightarrow> PhaseData option" where
  "set_power_chk sVI r =
     (if currentRms r > 5 / 100
      then (case div_chk sVI (real totalSamples) of None \<Rightarrow> None
            | Some avgVI \<Rightarrow>
                (let r1 = r\<lparr> realPower := avgVI * VOLTAGE_CALIBRATION \<rparr>;
                     r2 = r1\<lparr> apparentPower := voltageRms r1 * currentRms r1 \<rparr>
                 in case set_powerFactor_chk r2 of None \<Rightarrow> None
                    | Some r3 \<Rightarrow>
                        (case sqrt_chk (max_f 0 (apparentPower r3 * apparentPower r3
                                                 - realPower r3 * realPower r3)) of
                           None \<Rightarrow> None
                         | Some q \<Rightarrow> Some (r3\<lparr> reactivePower := q \<rparr>))))
      else Some r)"

definition finish_chk :: "SampleAcc \<Rightarrow> PhaseData option" where
  "finish_chk st =
     (case div_chk (sumVSq st) (real totalSamples) of None \<Rightarrow> None
      | Some mv \<Rightarrow>
          (case sqrt_chk mv of None \<Rightarrow> None
           | Some sv \<Rightarrow>
               (case div_chk (sumISq st) (real totalSamples) of None \<Rightarrow> None
                | Some mi \<Rightarrow>
                    (case sqrt_chk mi of None \<Rightarrow> None
                     | Some si \<Rightarrow>
                         set_power_chk (sumVI st)
                           (result_init\<lparr> voltageRms := sv * VOLTAGE_CALIBRATION,
                                         currentRms := si \<rparr>)))))"

definition measurePhase_chk :: "(nat \<Rightarrow> int \<times> int) \<Rightarrow> PhaseData option" where
  "measurePhase_chk reads =
     (case div_chk (CYCLE_PERIOD_US * real NUM_CYCLES) (real totalSamples) of None \<Rightarrow> None
      | Some sampleInterval \<Rightarrow>
          (case sample_loop_chk reads totalSamples of None \<Rightarrow> None
           | Some st \<Rightarrow> finish_chk st))"

subsection \<open>Test inputs\<close>

text \<open>A stream that delivers the same pair of codes at every sampling instant.\<close>

definition const_reads :: "int \<Rightarrow> int \<Rightarrow> nat \<Rightarrow> int \<times> int" where
  "const_reads rawV rawI i = (rawV, rawI)"

text \<open>
  A two-level waveform, the same code on both channels: code 0 at even instants,
  code 4095 at odd ones.
\<close>

definition square_reads :: "nat \<Rightarrow> int \<times> int" where
  "square_reads i = (if even i then (0, 0) else (4095, 4095))"

text \<open>
  A hand-built record: 2300 W of real and 2300 VA of apparent power, with the power
  factor field set to one half.
\<close>

definition phase_mismatch :: PhaseData where
  "phase_mismatch = \<lparr> voltageRms = 230, currentRms = 10, powerFactor = 1 / 2,
                      realPower = 2300, apparentPower = 2300, reactivePower = 0 \<rparr>"

section \<open>Basic facts\<close>

lemma abs_f_abs: "abs_f x = \<bar>x\<bar>"
  by (simp add: abs_f_def)

lemma max_f_max: "max_f a b = max a b"
  by (simp add: max_f_def max_def)

lemma constrain_range: "low \<le> high \<Longrightarrow> low \<le> constrain x low high \<and> constrain x low high \<le> high"
  by (simp add: constrain_def)

section \<open>The sampling loop and its result\<close>

lemma totalSamples_val: "totalSamples = 1000"
  by (simp add: totalSamples_def SAMPLES_PER_CYCLE_def NUM_CYCLES_def)

lemma sample_loop_0: "sample_loop reads 0 = sample_init"
  by (simp add: sample_loop_def)

lemma sample_loop_Suc: "sample_loop reads (Suc n) = sample_step (reads n) (sample_loop reads n)"
  by (simp add: sample_loop_def)

lemma sumVSq_loop:
  "sumVSq (sample_loop reads n) = (\<Sum>i<n. sample_v (fst (reads i)) * sample_v (fst (reads i)))"
  by (induction n) (simp_all add: sample_loop_0 sample_loop_Suc sample_init_def sample_step_def Let_def)

lemma sumISq_loop:
  "sumISq (sample_loop reads n) =
     (\<Sum>i<n. sample_current (snd (reads i)) * sample_current (snd (reads i)))"
  by (induction n) (simp_all add: sample_loop_0 sample_loop_Suc sample_init_def sample_step_def Let_def)

lemma sumVI_loop:
  "sumVI (sample_loop reads n) =
     (\<Sum>i<n. sample_v (fst (reads i)) * sample_current (snd (reads i)))"
  by (induction n) (simp_all add: sample_loop_0 sample_loop_Suc sample_init_def sample_step_def Let_def)

lemma sample_loop_noprev_Suc:
  "sample_loop_noprev reads (Suc n) = sample_step_noprev (reads n) (sample_loop_noprev reads n)"
  by (simp add: sample_loop_noprev_def)

lemma noprev_sums:
  "sumVSq (sample_loop_noprev reads n) = sumVSq (sample_loop reads n) \<and>
   sumISq (sample_loop_noprev reads n) = sumISq (sample_loop reads n) \<and>
   sumVI (sample_loop_noprev reads n) = sumVI (sample_loop reads n)"
proof (induction n)
  case 0
  show ?case by (simp add: sample_loop_noprev_def sample_loop_def)
next
  case (Suc n)
  then show ?case
    by (simp add: sample_loop_noprev_Suc sample_loop_Suc sample_step_def sample_step_noprev_def Let_def)
qed

lemma finish_sums:
  "sumVSq s = sumVSq t \<Longrightarrow> sumISq s = sumISq t \<Longrightarrow> sumVI s = sumVI t \<Longrightarrow> finish s = finish t"
  by (simp add: finish_def)

text \<open>
  C9. The result of \<^verbatim>\<open>measurePhase\<close> does not depend on the retained previous-sample
  values: the function with the assignments to \<^verbatim>\<open>prevV\<close> and \<^verbatim>\<open>prevI\<close> removed
  returns the same record for every sample stream.
\<close>

theorem prev_samples_unused: "measurePhase_noprev reads = measurePhase reads"
  unfolding measurePhase_noprev_def measurePhase_def
  by (rule finish_sums) (simp_all add: noprev_sums)

lemma sample_v_ne0: "sample_v rawV \<noteq> 0"
proof
  assume "sample_v rawV = 0"
  then have "real_of_int rawV * 2 = 4095"
    by (simp add: sample_v_def ADC_MAX_def ADC_VREF_def field_simps)
  then have "real_of_int (rawV * 2) = real_of_int 4095" by simp
  then have "rawV * 2 = 4095" by (simp only: of_int_eq_iff)
  then show False by presburger
qed


lemma finish_voltageRms:
  "voltageRms (finish st) = sqrt (sumVSq st / real totalSamples) * VOLTAGE_CALIBRATION"
  by (simp add: finish_def set_power_def set_powerFactor_def result_init_def Let_def)

lemma finish_currentRms:
  "currentRms (finish st) = sqrt (sumISq st / real totalSamples)"
  by (simp add: finish_def set_power_def set_powerFactor_def result_init_def Let_def)

lemma finish_idle:
  assumes "currentRms (finish st) \<le> 5 / 100"
  shows "realPower (finish st) = 0" and "apparentPower (finish st) = 0"
    and "reactivePower (finish st) = 0" and "powerFactor (finish st) = 0"
proof -
  have c: "\<not> sqrt (sumISq st / real totalSamples) > 5 / 100"
    using assms by (simp add: finish_currentRms)
  show "realPower (finish st) = 0"
    using c by (simp add: finish_def set_power_def result_init_def Let_def)
  show "apparentPower (finish st) = 0"
    using c by (simp add: finish_def set_power_def result_init_def Let_def)
  show "reactivePower (finish st) = 0"
    using c by (simp add: finish_def set_power_def result_init_def Let_def)
  show "powerFactor (finish st) = 0"
    using c by (simp add: finish_def set_power_def result_init_def Let_def)
qed

lemma finish_live:
  assumes "currentRms (finish st) > 5 / 100"
  shows "realPower (finish st) = sumVI st / real totalSamples * VOLTAGE_CALIBRATION"
    and "apparentPower (finish st) = voltageRms (finish st) * currentRms (finish st)"
    and "powerFactor (finish st) =
           (if apparentPower (finish st) > 0
            then abs_f (constrain (realPower (finish st) / apparentPower (finish st)) (- 1) 1)
            else 0)"
    and "reactivePower (finish st) =
           sqrt (max_f 0 (apparentPower (finish st) * apparentPower (finish st)
                          - realPower (finish st) * realPower (finish st)))"
proof -
  have c: "sqrt (sumISq st / real totalSamples) > 5 / 100"
    using assms by (simp add: finish_currentRms)
  show "realPower (finish st) = sumVI st / real totalSamples * VOLTAGE_CALIBRATION"
    using c by (simp add: finish_def set_power_def set_powerFactor_def result_init_def Let_def)
  show "apparentPower (finish st) = voltageRms (finish st) * currentRms (finish st)"
    using c by (simp add: finish_def set_power_def set_powerFactor_def result_init_def Let_def)
  show "powerFactor (finish st) =
           (if apparentPower (finish st) > 0
            then abs_f (constrain (realPower (finish st) / apparentPower (finish st)) (- 1) 1)
            else 0)"
    using c by (simp add: finish_def set_power_def set_powerFactor_def result_init_def Let_def)
  show "reactivePower (finish st) =
           sqrt (max_f 0 (apparentPower (finish st) * apparentPower (finish st)
                          - realPower (finish st) * realPower (finish st)))"
    using c by (simp add: finish_def set_power_def set_powerFactor_def result_init_def Let_def)
qed

lemma clamp_spec: "abs_f (constrain x (- 1) 1) = min 1 (max 0 \<bar>x\<bar>)"
  by (simp add: abs_f_def constrain_def)

lemma clamp_spec2: "constrain (abs_f x) 0 1 = min 1 (max 0 \<bar>x\<bar>)"
  by (simp add: abs_f_def constrain_def)

text \<open>
  C1. For every sample stream, \<^verbatim>\<open>measurePhase\<close> returns the RMS voltage
  \<open>sqrt (mean (v\<^sup>2)) * VOLTAGE_CALIBRATION\<close> and the RMS current \<open>sqrt (mean (c\<^sup>2))\<close>,
  where \<open>v\<close> and \<open>c\<close> are the zero-centred voltage and the current of each pair of raw
  codes; and when the RMS current exceeds the noise floor 0.05, the real power is
  \<open>mean (v * c) * VOLTAGE_CALIBRATION\<close>, the apparent power is the product of the two RMS
  values, the power factor is \<open>\<bar>P / S\<bar>\<close> clamped to \<open>[0, 1]\<close> (0 when the apparent power
  is not positive) and the reactive power is \<open>sqrt (max 0 (S\<^sup>2 - P\<^sup>2))\<close>.
\<close>

theorem measurePhase_formulas:
  "(let r = measurePhase reads;
        n = real totalSamples;
        v = (\<lambda>i. real_of_int (fst (reads i)) / ADC_MAX * ADC_VREF - ADC_VREF / 2);
        c = (\<lambda>i. (real_of_int (snd (reads i)) / ADC_MAX * ADC_VREF - ACS712_OFFSET)
                    / ACS712_SENSITIVITY)
    in voltageRms r = sqrt ((\<Sum>i<totalSamples. v i * v i) / n) * VOLTAGE_CALIBRATION
     \<and> currentRms r = sqrt ((\<Sum>i<totalSamples. c i * c i) / n)
     \<and> (currentRms r > 5 / 100 \<longrightarrow>
          realPower r = (\<Sum>i<totalSamples. v i * c i) / n * VOLTAGE_CALIBRATION
        \<and> apparentPower r = voltageRms r * currentRms r
        \<and> powerFactor r =
            (if apparentPower r > 0 then min 1 (max 0 \<bar>realPower r / apparentPower r\<bar>) else 0)
        \<and> reactivePower r =
            sqrt (max 0 (apparentPower r * apparentPower r - realPower r * realPower r))))"
proof -
  let ?st = "sample_loop reads totalSamples"
  have v: "voltageRms (finish ?st) =
      sqrt ((\<Sum>i<totalSamples. sample_v (fst (reads i)) * sample_v (fst (reads i)))
            / real totalSamples) * VOLTAGE_CALIBRATION"
    by (simp only: finish_voltageRms sumVSq_loop)
  have c: "currentRms (finish ?st) =
      sqrt ((\<Sum>i<totalSamples. sample_current (snd (reads i)) * sample_current (snd (reads i)))
            / real totalSamples)"
    by (simp only: finish_currentRms sumISq_loop)
  have p: "currentRms (finish ?st) > 5 / 100 \<Longrightarrow> realPower (finish ?st) =
      (\<Sum>i<totalSamples. sample_v (fst (reads i)) * sample_current (snd (reads i)))
        / real totalSamples * VOLTAGE_CALIBRATION"
    by (simp only: finish_live(1) sumVI_loop)
  show ?thesis
    unfolding Let_def measurePhase_def
    using v c p finish_live(2,3,4)[of ?st]
    by (simp add: sample_v_def sample_current_def Let_def clamp_spec max_f_max)
qed


lemma voltageRms_const:
  "voltageRms (measurePhase (const_reads a b)) = \<bar>sample_v a\<bar> * VOLTAGE_CALIBRATION"
  by (simp add: measurePhase_def finish_voltageRms sumVSq_loop const_reads_def totalSamples_val)

lemma currentRms_const:
  "currentRms (measurePhase (const_reads a b)) = \<bar>sample_current b\<bar>"
  by (simp add: measurePhase_def finish_currentRms sumISq_loop const_reads_def totalSamples_val)

lemma sample_current_0: "sample_current 0 = - 25"
  by (simp add: sample_current_def ACS712_OFFSET_def ACS712_SENSITIVITY_def ADC_VREF_def ADC_MAX_def)

lemma sample_v_0: "sample_v 0 = - (165 / 100)"
  by (simp add: sample_v_def ADC_VREF_def ADC_MAX_def)

lemma sample_current_2047: "sample_current 2047 = - (1 / 1638) * (10 :: real)"
  by (simp add: sample_current_def ACS712_OFFSET_def ACS712_SENSITIVITY_def ADC_VREF_def ADC_MAX_def)

text \<open>
  The formulas at the stream that reads code 0 on both channels: 1.65 V at the pin,
  25 A, power factor 1.
\<close>

theorem measurePhase_formulas_witness:
  "currentRms (measurePhase (const_reads 0 0)) > 5 / 100
   \<and> voltageRms (measurePhase (const_reads 0 0)) = 165 / 100 * VOLTAGE_CALIBRATION
   \<and> currentRms (measurePhase (const_reads 0 0)) = 25
   \<and> realPower (measurePhase (const_reads 0 0)) = 4125 / 100 * VOLTAGE_CALIBRATION
   \<and> apparentPower (measurePhase (const_reads 0 0)) = 4125 / 100 * VOLTAGE_CALIBRATION
   \<and> powerFactor (measurePhase (const_reads 0 0)) = 1
   \<and> reactivePower (measurePhase (const_reads 0 0)) = 0"
proof -
  let ?r = "measurePhase (const_reads 0 0)"
  have h: "currentRms ?r = 25"
    by (simp add: currentRms_const sample_current_0)
  have v: "voltageRms ?r = 165 / 100 * VOLTAGE_CALIBRATION"
    by (simp add: voltageRms_const sample_v_0)
  have live: "5 / 100 < currentRms ?r"
    by (simp add: h)
  have pos: "VOLTAGE_CALIBRATION > 0"
    by (simp add: VOLTAGE_CALIBRATION_def)
  note F = measurePhase_formulas [of "const_reads 0 0", unfolded Let_def]
  note G = F [THEN conjunct2, THEN conjunct2, THEN mp, OF live]
  have P: "realPower ?r = 4125 / 100 * VOLTAGE_CALIBRATION"
    using G [THEN conjunct1]
    by (simp add: const_reads_def totalSamples_val ACS712_OFFSET_def
        ACS712_SENSITIVITY_def ADC_VREF_def ADC_MAX_def)
  have S: "apparentPower ?r = 4125 / 100 * VOLTAGE_CALIBRATION"
    using G [THEN conjunct2, THEN conjunct1] by (simp add: h v)
  have pf: "powerFactor ?r = 1"
    using G [THEN conjunct2, THEN conjunct2, THEN conjunct1] pos by (simp add: P S)
  have Q: "reactivePower ?r = 0"
    using G [THEN conjunct2, THEN conjunct2, THEN conjunct2] by (simp add: P S)
  show ?thesis
    using live h v P S pf Q by blast
qed

section \<open>Dead-band and invariants\<close>

text \<open>
  C2. For every sample stream, if the computed RMS current is at or below the noise
  floor 0.05, the record returned by \<^verbatim>\<open>measurePhase\<close> has real, apparent and reactive
  power and the power factor all exactly 0.
\<close>

theorem noise_floor_zero:
  "currentRms (measurePhase reads) \<le> 5 / 100 \<Longrightarrow>
     realPower (measurePhase reads) = 0 \<and> apparentPower (measurePhase reads) = 0 \<and>
     reactivePower (measurePhase reads) = 0 \<and> powerFactor (measurePhase reads) = 0"
  unfolding measurePhase_def by (simp add: finish_idle)

text \<open>
  The stream that always reads current code 2047 is in the dead-band: about 6 mA.
\<close>

theorem noise_floor_zero_witness:
  "currentRms (measurePhase (const_reads 0 2047)) \<le> 5 / 100 \<and>
   realPower (measurePhase (const_reads 0 2047)) = 0 \<and>
   apparentPower (measurePhase (const_reads 0 2047)) = 0 \<and>
   reactivePower (measurePhase (const_reads 0 2047)) = 0 \<and>
   powerFactor (measurePhase (const_reads 0 2047)) = 0"
proof -
  have h: "currentRms (measurePhase (const_reads 0 2047)) \<le> 5 / 100"
    by (simp add: currentRms_const sample_current_2047)
  show ?thesis
    using h noise_floor_zero [OF h] by blast
qed

lemma sumVSq_nonneg: "0 \<le> sumVSq (sample_loop reads n)"
  by (simp add: sumVSq_loop sum_nonneg)

lemma sumISq_nonneg: "0 \<le> sumISq (sample_loop reads n)"
  by (simp add: sumISq_loop sum_nonneg)

lemma sample_v_sq_pos: "0 < sample_v rawV * sample_v rawV"
  using sample_v_ne0 [of rawV] by (auto simp add: zero_less_mult_iff)

lemma sumVSq_pos: "0 < n \<Longrightarrow> 0 < sumVSq (sample_loop reads n)"
  unfolding sumVSq_loop
  by (rule sum_pos) (simp_all add: sample_v_sq_pos lessThan_empty_iff)

lemma calibration_pos: "0 < VOLTAGE_CALIBRATION"
  by (simp add: VOLTAGE_CALIBRATION_def)

lemma voltageRms_pos: "0 < voltageRms (measurePhase reads)"
proof -
  have "0 < sumVSq (sample_loop reads totalSamples) / real totalSamples"
    using sumVSq_pos [of totalSamples reads] by (simp add: totalSamples_val)
  then show ?thesis
    by (simp add: measurePhase_def finish_voltageRms calibration_pos)
qed

lemma currentRms_nonneg: "0 \<le> currentRms (measurePhase reads)"
  by (simp add: measurePhase_def finish_currentRms sumISq_nonneg)

lemma apparentPower_cases:
  "apparentPower (measurePhase reads) =
     (if currentRms (measurePhase reads) > 5 / 100
      then voltageRms (measurePhase reads) * currentRms (measurePhase reads) else 0)"
  unfolding measurePhase_def
  using finish_live(2) [of "sample_loop reads totalSamples"]
        finish_idle(2) [of "sample_loop reads totalSamples"]
  by (simp add: not_less)

lemma apparentPower_nonneg: "0 \<le> apparentPower (measurePhase reads)"
  using voltageRms_pos [of reads] currentRms_nonneg [of reads]
  by (simp add: apparentPower_cases)

lemma powerFactor_consistent:
  "powerFactor (measurePhase reads) =
     (if apparentPower (measurePhase reads) > 0
      then min 1 (max 0 \<bar>realPower (measurePhase reads) / apparentPower (measurePhase reads)\<bar>)
      else 0)"
proof (cases "currentRms (measurePhase reads) > 5 / 100")
  case True
  then show ?thesis
    unfolding measurePhase_def
    using finish_live(3) [of "sample_loop reads totalSamples"]
    by (simp add: clamp_spec)
next
  case False
  then have "currentRms (measurePhase reads) \<le> 5 / 100" by simp
  then show ?thesis
    unfolding measurePhase_def
    using finish_idle(2,4) [of "sample_loop reads totalSamples"]
    by simp
qed

lemma reactivePower_formula:
  "reactivePower (measurePhase reads) =
     sqrt (max 0 (apparentPower (measurePhase reads) * apparentPower (measurePhase reads)
                  - realPower (measurePhase reads) * realPower (measurePhase reads)))"
proof (cases "currentRms (measurePhase reads) > 5 / 100")
  case True
  then show ?thesis
    unfolding measurePhase_def
    using finish_live(4) [of "sample_loop reads totalSamples"]
    by (simp add: max_f_max)
next
  case False
  then have "currentRms (measurePhase reads) \<le> 5 / 100" by simp
  then show ?thesis
    unfolding measurePhase_def
    using finish_idle [of "sample_loop reads totalSamples"]
    by simp
qed

lemma aggregate_totalRealPower:
  "totalRealPower (aggregate thr a b c) = realPower a + realPower b + realPower c"
  by (simp add: aggregate_def overall_step_def phase_step_def loop_init_def Let_def)

lemma aggregate_totalApparentPower:
  "totalApparentPower (aggregate thr a b c) = apparentPower a + apparentPower b + apparentPower c"
  by (simp add: aggregate_def overall_step_def phase_step_def loop_init_def Let_def)

lemma aggregate_overallPF:
  "overallPF (aggregate thr a b c) =
     (if totalApparentPower (aggregate thr a b c) > 0
      then constrain (abs_f (totalRealPower (aggregate thr a b c)
                             / totalApparentPower (aggregate thr a b c))) 0 1
      else 0)"
  by (simp add: aggregate_def overall_step_def phase_step_def loop_init_def Let_def)

lemma aggregate_totalReactivePower:
  "totalReactivePower (aggregate thr a b c) =
     (if totalApparentPower (aggregate thr a b c) > 0
      then sqrt (max_f 0 (totalApparentPower (aggregate thr a b c)
                            * totalApparentPower (aggregate thr a b c)
                          - totalRealPower (aggregate thr a b c)
                            * totalRealPower (aggregate thr a b c)))
      else 0)"
  by (simp add: aggregate_def overall_step_def phase_step_def loop_init_def Let_def)

lemma aggregate_anyLowPF:
  "anyLowPF (aggregate thr a b c) \<longleftrightarrow>
     (1 / 100 < powerFactor a \<and> powerFactor a < thr) \<or>
     (1 / 100 < powerFactor b \<and> powerFactor b < thr) \<or>
     (1 / 100 < powerFactor c \<and> powerFactor c < thr)"
  by (simp add: aggregate_def overall_step_def phase_step_def loop_init_def Let_def)

lemma overallPF_range:
  "0 \<le> overallPF (aggregate thr a b c) \<and> overallPF (aggregate thr a b c) \<le> 1"
  by (simp add: aggregate_overallPF constrain_def)

text \<open>
  C3. For every sample stream the record returned by \<^verbatim>\<open>measurePhase\<close> has a power
  factor in \<open>[0, 1]\<close>, a non-negative apparent power and the reactive power
  \<open>sqrt (max 0 (S\<^sup>2 - P\<^sup>2))\<close>; and the overall power factor of the aggregation lies in
  \<open>[0, 1]\<close>, whatever the three phases are.
\<close>

theorem power_invariants:
  "0 \<le> powerFactor (measurePhase reads) \<and> powerFactor (measurePhase reads) \<le> 1 \<and>
   0 \<le> apparentPower (measurePhase reads) \<and>
   reactivePower (measurePhase reads) =
     sqrt (max 0 (apparentPower (measurePhase reads) * apparentPower (measurePhase reads)
                  - realPower (measurePhase reads) * realPower (measurePhase reads))) \<and>
   0 \<le> overallPF (aggregate thr a b c) \<and> overallPF (aggregate thr a b c) \<le> 1"
proof -
  have "0 \<le> powerFactor (measurePhase reads) \<and> powerFactor (measurePhase reads) \<le> 1"
    by (simp add: powerFactor_consistent)
  then show ?thesis
    using apparentPower_nonneg [of reads] reactivePower_formula [of reads]
          overallPF_range [of thr a b c]
    by blast
qed

section \<open>Aggregation\<close>

lemma aggregate_overallPF_clamp:
  "overallPF (aggregate thr a b c) =
     (if totalApparentPower (aggregate thr a b c) > 0
      then min 1 (max 0 \<bar>totalRealPower (aggregate thr a b c)
                         / totalApparentPower (aggregate thr a b c)\<bar>)
      else 0)"
  by (simp only: aggregate_overallPF [of thr a b c] clamp_spec2)

text \<open>
  The total reactive power is assigned under the guard \<open>totalApparentPower > 0\<close>. When
  the total is 0 the variable keeps its initial 0, which is what the formula gives
  there; so the guard is invisible as long as the total is not negative.
\<close>

lemma aggregate_reactive_unguarded:
  assumes "0 \<le> totalApparentPower (aggregate thr a b c)"
  shows "totalReactivePower (aggregate thr a b c) =
           sqrt (max 0 (totalApparentPower (aggregate thr a b c)
                          * totalApparentPower (aggregate thr a b c)
                        - totalRealPower (aggregate thr a b c)
                          * totalRealPower (aggregate thr a b c)))"
proof -
  let ?S = "totalApparentPower (aggregate thr a b c)"
  let ?P = "totalRealPower (aggregate thr a b c)"
  have q: "totalReactivePower (aggregate thr a b c) =
      (if ?S > 0 then sqrt (max 0 (?S * ?S - ?P * ?P)) else 0)"
    by (simp only: aggregate_totalReactivePower [of thr a b c] max_f_max)
  show ?thesis
  proof (cases "?S > 0")
    case True
    then show ?thesis using q by simp
  next
    case False
    with assms have z: "?S = 0" by simp
    have "- (?P * ?P) \<le> 0" by simp
    then have "max 0 (- (?P * ?P)) = 0" by (rule max_absorb1)
    then show ?thesis using q z by simp
  qed
qed

lemma aggregate_total_nonneg:
  assumes "0 \<le> apparentPower a" and "0 \<le> apparentPower b" and "0 \<le> apparentPower c"
  shows "0 \<le> totalApparentPower (aggregate thr a b c)"
  using assms by (simp add: aggregate_totalApparentPower)

text \<open>
  C4. For any three phase records, which as PhaseMetrics values have a non-negative
  apparent power, the aggregation produces the arithmetic sums of the three real
  powers and of the three apparent powers; the overall power factor is \<open>\<bar>P / S\<bar>\<close> of
  the totals clamped to \<open>[0, 1]\<close> when the total apparent power is positive and 0
  otherwise; and the total reactive power is \<open>sqrt (max 0 (S\<^sup>2 - P\<^sup>2))\<close> of the totals,
  not the sum of the per-phase reactive powers.
\<close>

theorem aggregate_totals:
  assumes "0 \<le> apparentPower a" and "0 \<le> apparentPower b" and "0 \<le> apparentPower c"
  shows
  "totalRealPower (aggregate thr a b c) = realPower a + realPower b + realPower c \<and>
   totalApparentPower (aggregate thr a b c) = apparentPower a + apparentPower b + apparentPower c \<and>
   overallPF (aggregate thr a b c) =
     (if totalApparentPower (aggregate thr a b c) > 0
      then min 1 (max 0 \<bar>totalRealPower (aggregate thr a b c)
                         / totalApparentPower (aggregate thr a b c)\<bar>)
      else 0) \<and>
   totalReactivePower (aggregate thr a b c) =
     sqrt (max 0 (totalApparentPower (aggregate thr a b c)
                    * totalApparentPower (aggregate thr a b c)
                  - totalRealPower (aggregate thr a b c)
                    * totalRealPower (aggregate thr a b c)))"
  using aggregate_totalRealPower [of thr a b c] aggregate_totalApparentPower [of thr a b c]
        aggregate_overallPF_clamp [of thr a b c]
        aggregate_reactive_unguarded [OF aggregate_total_nonneg [OF assms, of thr]]
  by blast

text \<open>
  Three records with 2300 W, 1000 W and 0 W of real power on 2300 VA, 2000 VA and
  0 VA: the totals are 3300 W and 4300 VA, and the reactive power is computed from
  these totals although every record carries the reactive power 0.
\<close>

theorem aggregate_totals_witness:
  "(0 :: real) \<le> apparentPower phase_mismatch \<and>
   0 \<le> apparentPower (phase_mismatch\<lparr>realPower := 1000, apparentPower := 2000\<rparr>) \<and>
   0 \<le> apparentPower result_init \<and>
   totalRealPower (aggregate PF_THRESHOLD phase_mismatch
      (phase_mismatch\<lparr>realPower := 1000, apparentPower := 2000\<rparr>) result_init) = 3300 \<and>
   totalApparentPower (aggregate PF_THRESHOLD phase_mismatch
      (phase_mismatch\<lparr>realPower := 1000, apparentPower := 2000\<rparr>) result_init) = 4300 \<and>
   overallPF (aggregate PF_THRESHOLD phase_mismatch
      (phase_mismatch\<lparr>realPower := 1000, apparentPower := 2000\<rparr>) result_init) = 33 / 43 \<and>
   totalReactivePower (aggregate PF_THRESHOLD phase_mismatch
      (phase_mismatch\<lparr>realPower := 1000, apparentPower := 2000\<rparr>) result_init)
     = sqrt 7600000"
proof -
  let ?b = "phase_mismatch\<lparr>realPower := 1000, apparentPower := 2000\<rparr>"
  let ?g = "aggregate PF_THRESHOLD phase_mismatch ?b result_init"
  have ha: "(0 :: real) \<le> apparentPower phase_mismatch"
    by (simp add: phase_mismatch_def)
  have hb: "0 \<le> apparentPower ?b"
    by simp
  have hc: "0 \<le> apparentPower result_init"
    by (simp add: result_init_def)
  note F = aggregate_totals [OF ha hb hc, of PF_THRESHOLD]
  have P: "totalRealPower ?g = 3300"
    using F [THEN conjunct1] by (simp add: phase_mismatch_def result_init_def)
  have S: "totalApparentPower ?g = 4300"
    using F [THEN conjunct2, THEN conjunct1] by (simp add: phase_mismatch_def result_init_def)
  have pf: "overallPF ?g = 33 / 43"
    using F [THEN conjunct2, THEN conjunct2, THEN conjunct1] by (simp add: P S)
  have Q: "totalReactivePower ?g = sqrt 7600000"
    using F [THEN conjunct2, THEN conjunct2, THEN conjunct2] by (simp add: P S)
  show ?thesis
    using ha hb hc P S pf Q by blast
qed

text \<open>
  In a cycle of \<^verbatim>\<open>loop\<close> the three records come from \<^verbatim>\<open>measurePhase\<close>, whose
  apparent power is never negative: there the unguarded formula holds for all
  sample streams.
\<close>

lemma loop_cycle_reactive:
  "totalReactivePower (loop_cycle readsR readsY readsB) =
     sqrt (max 0 (totalApparentPower (loop_cycle readsR readsY readsB)
                    * totalApparentPower (loop_cycle readsR readsY readsB)
                  - totalRealPower (loop_cycle readsR readsY readsB)
                    * totalRealPower (loop_cycle readsR readsY readsB)))"
  unfolding loop_cycle_def
  by (rule aggregate_reactive_unguarded, rule aggregate_total_nonneg)
     (rule apparentPower_nonneg)+

section \<open>Alert\<close>

text \<open>
  C5. For any three phase records and any threshold, the alert is raised if and only
  if at least one phase has a power factor strictly above 0.01 and strictly below the
  threshold. In particular: three phases with power factor 0 raise no alert; a phase
  with power factor 0.5 raises the alert at threshold 0.85; three phases with power
  factor 0.9 raise no alert at threshold 0.85.
\<close>

theorem alert_decision:
  "(anyLowPF (aggregate thr a b c) \<longleftrightarrow>
      (1 / 100 < powerFactor a \<and> powerFactor a < thr) \<or>
      (1 / 100 < powerFactor b \<and> powerFactor b < thr) \<or>
      (1 / 100 < powerFactor c \<and> powerFactor c < thr)) \<and>
   (powerFactor a = 0 \<and> powerFactor b = 0 \<and> powerFactor c = 0 \<longrightarrow>
      \<not> anyLowPF (aggregate thr a b c)) \<and>
   (powerFactor a = 1 / 2 \<or> powerFactor b = 1 / 2 \<or> powerFactor c = 1 / 2 \<longrightarrow>
      anyLowPF (aggregate (85 / 100) a b c)) \<and>
   (powerFactor a = 9 / 10 \<and> powerFactor b = 9 / 10 \<and> powerFactor c = 9 / 10 \<longrightarrow>
      \<not> anyLowPF (aggregate (85 / 100) a b c))"
proof -
  have 1: "powerFactor a = 0 \<and> powerFactor b = 0 \<and> powerFactor c = 0 \<longrightarrow>
      \<not> anyLowPF (aggregate thr a b c)"
    by (simp add: aggregate_anyLowPF)
  have 2: "powerFactor a = 1 / 2 \<or> powerFactor b = 1 / 2 \<or> powerFactor c = 1 / 2 \<longrightarrow>
      anyLowPF (aggregate (85 / 100) a b c)"
    by (auto simp add: aggregate_anyLowPF)
  have 3: "powerFactor a = 9 / 10 \<and> powerFactor b = 9 / 10 \<and> powerFactor c = 9 / 10 \<longrightarrow>
      \<not> anyLowPF (aggregate (85 / 100) a b c)"
    by (simp add: aggregate_anyLowPF)
  show ?thesis
    using aggregate_anyLowPF [of thr a b c] 1 2 3 by blast
qed

lemma PF_THRESHOLD_val: "PF_THRESHOLD = 85 / 100"
  by (simp add: PF_THRESHOLD_def)

text \<open>The three particular cases at the firmware's threshold.\<close>

theorem alert_decision_witness:
  "\<not> anyLowPF (aggregate PF_THRESHOLD result_init result_init result_init) \<and>
   anyLowPF (aggregate PF_THRESHOLD phase_mismatch result_init result_init) \<and>
   \<not> anyLowPF (aggregate PF_THRESHOLD (result_init\<lparr>powerFactor := 9 / 10\<rparr>)
        (result_init\<lparr>powerFactor := 9 / 10\<rparr>) (result_init\<lparr>powerFactor := 9 / 10\<rparr>))"
proof -
  let ?hi = "result_init\<lparr>powerFactor := 9 / 10\<rparr>"
  have z: "powerFactor result_init = 0 \<and> powerFactor result_init = 0 \<and> powerFactor result_init = 0"
    by (simp add: result_init_def)
  have m: "powerFactor phase_mismatch = 1 / 2 \<or> powerFactor result_init = 1 / 2
             \<or> powerFactor result_init = 1 / 2"
    by (simp add: phase_mismatch_def)
  have n: "powerFactor ?hi = 9 / 10 \<and> powerFactor ?hi = 9 / 10 \<and> powerFactor ?hi = 9 / 10"
    by simp
  have 1: "\<not> anyLowPF (aggregate PF_THRESHOLD result_init result_init result_init)"
    using alert_decision [of PF_THRESHOLD result_init result_init result_init,
        THEN conjunct2, THEN conjunct1, THEN mp, OF z] .
  have 2: "anyLowPF (aggregate PF_THRESHOLD phase_mismatch result_init result_init)"
    using alert_decision [of thr phase_mismatch result_init result_init,
        THEN conjunct2, THEN conjunct2, THEN conjunct1, THEN mp, OF m]
    by (simp add: PF_THRESHOLD_val)
  have 3: "\<not> anyLowPF (aggregate PF_THRESHOLD ?hi ?hi ?hi)"
    using alert_decision [of thr ?hi ?hi ?hi,
        THEN conjunct2, THEN conjunct2, THEN conjunct2, THEN mp, OF n]
    by (simp add: PF_THRESHOLD_val)
  show ?thesis
    using 1 2 3 by blast
qed

section \<open>Identical phases in exact arithmetic\<close>

text \<open>
  Over the reals, three copies of a record whose power factor field is consistent
  with its real and apparent power aggregate to that power factor, because
  \<open>3 * P / (3 * S) = P / S\<close>. The firmware rounds the two sums and both quotients to
  single precision, which this development does not represent; the lemmas below say
  nothing about the equality of the rounded results.
\<close>

lemma aggregate_same_overallPF:
  assumes "powerFactor m =
     (if apparentPower m > 0 then min 1 (max 0 \<bar>realPower m / apparentPower m\<bar>) else 0)"
  shows "overallPF (aggregate thr m m m) = powerFactor m"
proof (cases "apparentPower m > 0")
  case True
  then have S: "apparentPower m + apparentPower m + apparentPower m > 0" by simp
  have "(realPower m + realPower m + realPower m)
          / (apparentPower m + apparentPower m + apparentPower m)
        = (3 * realPower m) / (3 * apparentPower m)"
    by simp
  also have "\<dots> = realPower m / apparentPower m"
    by simp
  finally have q: "(realPower m + realPower m + realPower m)
          / (apparentPower m + apparentPower m + apparentPower m)
        = realPower m / apparentPower m" .
  show ?thesis
    using True S assms
    by (simp only: aggregate_overallPF aggregate_totalRealPower aggregate_totalApparentPower
        q clamp_spec2 if_True)
next
  case False
  then have S: "\<not> apparentPower m + apparentPower m + apparentPower m > 0" by simp
  show ?thesis
    using False S assms
    by (simp only: aggregate_overallPF aggregate_totalRealPower aggregate_totalApparentPower
        if_False)
qed

lemma measured_same_overallPF:
  "overallPF (aggregate thr (measurePhase reads) (measurePhase reads) (measurePhase reads))
     = powerFactor (measurePhase reads)"
  by (rule aggregate_same_overallPF) (rule powerFactor_consistent)

section \<open>In-phase signals\<close>

lemma in_phase_pf_one:
  assumes k: "0 < k"
    and lin: "\<forall>i<totalSamples. sample_current (snd (reads i)) = k * sample_v (fst (reads i))"
    and live: "currentRms (measurePhase reads) > 5 / 100"
  shows "powerFactor (measurePhase reads) = 1"
proof -
  let ?st = "sample_loop reads totalSamples"
  define m where "m = sumVSq ?st / real totalSamples"
  have I: "sumISq ?st = k * k * sumVSq ?st"
    unfolding sumISq_loop sumVSq_loop sum_distrib_left
    by (rule sum.cong) (use lin in \<open>simp_all add: algebra_simps\<close>)
  have VI: "sumVI ?st = k * sumVSq ?st"
    unfolding sumVI_loop sumVSq_loop sum_distrib_left
    by (rule sum.cong) (use lin in \<open>simp_all add: algebra_simps\<close>)
  have mpos: "0 < m"
    using sumVSq_pos [of totalSamples reads] by (simp add: m_def totalSamples_val)
  have "sumISq ?st / real totalSamples = (k * k) * m"
    by (simp add: I m_def)
  then have "sqrt (sumISq ?st / real totalSamples) = sqrt (k * k) * sqrt m"
    by (simp only: real_sqrt_mult)
  also have "sqrt (k * k) = k"
    using k by simp
  finally have crms: "currentRms (measurePhase reads) = k * sqrt m"
    by (simp only: measurePhase_def finish_currentRms)
  have vrms: "voltageRms (measurePhase reads) = sqrt m * VOLTAGE_CALIBRATION"
    by (simp only: measurePhase_def finish_voltageRms m_def)
  have "sqrt m * sqrt m = \<bar>m\<bar>"
    by (rule real_sqrt_mult_self)
  also have "\<dots> = m"
    using mpos by (rule abs_of_pos)
  finally have sq: "sqrt m * sqrt m = m" .
  have "apparentPower (measurePhase reads) = (sqrt m * VOLTAGE_CALIBRATION) * (k * sqrt m)"
    using live by (simp only: apparentPower_cases if_True vrms crms)
  also have "\<dots> = k * VOLTAGE_CALIBRATION * (sqrt m * sqrt m)"
    by (simp only: mult_ac)
  finally have S: "apparentPower (measurePhase reads) = k * VOLTAGE_CALIBRATION * m"
    by (simp only: sq)
  have "realPower (measurePhase reads) = sumVI ?st / real totalSamples * VOLTAGE_CALIBRATION"
    using live unfolding measurePhase_def by (rule finish_live(1))
  also have "sumVI ?st / real totalSamples = k * m"
    by (simp add: VI m_def)
  finally have P: "realPower (measurePhase reads) = k * VOLTAGE_CALIBRATION * m"
    by (simp only: mult_ac)
  have Spos: "0 < k * VOLTAGE_CALIBRATION * m"
    using k calibration_pos mpos by simp
  then have "0 < apparentPower (measurePhase reads)"
    by (simp only: S)
  moreover have "realPower (measurePhase reads) / apparentPower (measurePhase reads) = 1"
    using k calibration_pos mpos by (simp add: P S)
  ultimately show ?thesis
    by (simp add: powerFactor_consistent [of reads])
qed

text \<open>
  C8. For any sample stream whose zero-centred voltage and current values are
  proportional with a positive factor at every sampling instant, as samples of the
  same in-phase sinusoid are, and whose RMS current is above the noise floor,
  \<^verbatim>\<open>measurePhase\<close> returns a power factor within 0.01 of 1.
\<close>

theorem in_phase_unity:
  assumes "0 < k"
    and "\<forall>i<totalSamples. sample_current (snd (reads i)) = k * sample_v (fst (reads i))"
    and "currentRms (measurePhase reads) > 5 / 100"
  shows "\<bar>powerFactor (measurePhase reads) - 1\<bar> \<le> 1 / 100"
  using in_phase_pf_one [OF assms] by simp

lemma sample_current_4095: "sample_current 4095 = 25"
  by (simp add: sample_current_def ACS712_OFFSET_def ACS712_SENSITIVITY_def ADC_VREF_def ADC_MAX_def)

lemma sample_current_proportional: "sample_current x = 1000 / 66 * sample_v x"
  by (simp add: sample_current_def sample_v_def ACS712_OFFSET_def ACS712_SENSITIVITY_def
      ADC_VREF_def ADC_MAX_def Let_def field_simps)

lemma square_reads_current_sq:
  "sample_current (snd (square_reads i)) * sample_current (snd (square_reads i)) = 625"
  by (simp add: square_reads_def sample_current_0 sample_current_4095)

lemma currentRms_square: "currentRms (measurePhase square_reads) = 25"
proof -
  have "sumISq (sample_loop square_reads totalSamples) / real totalSamples = 625"
    by (simp add: sumISq_loop square_reads_current_sq totalSamples_val)
  moreover have "sqrt (625 :: real) = 25"
    by (rule real_sqrt_unique) simp_all
  ultimately show ?thesis
    by (simp add: measurePhase_def finish_currentRms)
qed

text \<open>
  The two-level waveform read on both channels: the current is 1000/66 times the
  voltage at every instant, and its RMS value is 25 A.
\<close>

theorem in_phase_unity_witness:
  "(0 :: real) < 1000 / 66 \<and>
   sample_current (snd (square_reads 0)) = 1000 / 66 * sample_v (fst (square_reads 0)) \<and>
   sample_current (snd (square_reads 1)) = 1000 / 66 * sample_v (fst (square_reads 1)) \<and>
   currentRms (measurePhase square_reads) > 5 / 100 \<and>
   \<bar>powerFactor (measurePhase square_reads) - 1\<bar> \<le> 1 / 100"
proof -
  have k: "(0 :: real) < 1000 / 66" by simp
  have lin: "\<forall>i<totalSamples. sample_current (snd (square_reads i))
        = 1000 / 66 * sample_v (fst (square_reads i))"
    by (simp add: square_reads_def sample_current_proportional)
  have live: "currentRms (measurePhase square_reads) > 5 / 100"
    by (simp add: currentRms_square)
  have "0 < totalSamples" and "1 < totalSamples"
    by (simp_all add: totalSamples_val)
  with lin have
    "sample_current (snd (square_reads 0)) = 1000 / 66 * sample_v (fst (square_reads 0))"
    "sample_current (snd (square_reads 1)) = 1000 / 66 * sample_v (fst (square_reads 1))"
    by blast+
  then show ?thesis
    using k live in_phase_unity [OF k lin live] by blast
qed

section \<open>Guarded arithmetic\<close>

lemma sample_v_chk_ok: "sample_v_chk rawV = Some (sample_v rawV)"
  by (simp add: sample_v_chk_def sample_v_def div_chk_def ADC_MAX_def Let_def)

lemma sample_current_chk_ok: "sample_current_chk rawI = Some (sample_current rawI)"
  by (simp add: sample_current_chk_def sample_current_def div_chk_def ADC_MAX_def
      ACS712_SENSITIVITY_def Let_def)

lemma sample_step_chk_ok: "sample_step_chk rd st = Some (sample_step rd st)"
  by (simp add: sample_step_chk_def sample_step_def sample_v_chk_ok sample_current_chk_ok Let_def)

lemma sample_loop_chk_ok: "sample_loop_chk reads n = Some (sample_loop reads n)"
proof (induction n)
  case 0
  show ?case by (simp add: sample_loop_chk_def sample_loop_def)
next
  case (Suc n)
  have "sample_loop_chk reads (Suc n) =
      (case sample_loop_chk reads n of None \<Rightarrow> None
       | Some st \<Rightarrow> sample_step_chk (reads n) st)"
    by (simp add: sample_loop_chk_def)
  then show ?case
    by (simp add: Suc sample_step_chk_ok sample_loop_Suc)
qed

lemma set_powerFactor_chk_ok: "set_powerFactor_chk r = Some (set_powerFactor r)"
  by (simp add: set_powerFactor_chk_def set_powerFactor_def div_chk_def Let_def)

lemma sqrt_chk_max: "sqrt_chk (max_f 0 x) = Some (sqrt (max_f 0 x))"
  by (simp add: sqrt_chk_def max_f_def)

lemma set_power_chk_ok: "set_power_chk sVI r = Some (set_power sVI r)"
  by (simp add: set_power_chk_def set_power_def div_chk_def totalSamples_val
      set_powerFactor_chk_ok sqrt_chk_max Let_def)

lemma finish_chk_ok:
  assumes "0 \<le> sumVSq st" and "0 \<le> sumISq st"
  shows "finish_chk st = Some (finish st)"
  using assms
  by (simp add: finish_chk_def finish_def div_chk_def sqrt_chk_def totalSamples_val
      set_power_chk_ok Let_def not_less)

lemma measurePhase_chk_ok: "measurePhase_chk reads = Some (measurePhase reads)"
  by (simp add: measurePhase_chk_def measurePhase_def div_chk_def totalSamples_val
      sample_loop_chk_ok finish_chk_ok sumVSq_nonneg sumISq_nonneg)

lemma live_apparentPower_pos:
  "currentRms (measurePhase reads) > 5 / 100 \<Longrightarrow> 0 < apparentPower (measurePhase reads)"
  using voltageRms_pos [of reads] by (simp add: apparentPower_cases)

text \<open>
  C6, as amended. \<^verbatim>\<open>measurePhase\<close> raises no exception and performs no unguarded
  division: with every division and square root checked, it still returns a result
  for every sample stream, the one of the unchecked function. The division by the
  apparent power stands under the guard \<open>apparentPower > 0\<close>, every other divisor is a
  non-zero constant or the positive sample count. Every degenerate input (RMS current
  at or below the noise floor, or an apparent power that is not positive) gives a
  record whose real, apparent and reactive power and power factor are 0; the two RMS
  fields keep their measured values.
\<close>

theorem no_unguarded_division:
  "measurePhase_chk reads = Some (measurePhase reads) \<and>
   (currentRms (measurePhase reads) \<le> 5 / 100 \<or> apparentPower (measurePhase reads) \<le> 0 \<longrightarrow>
      realPower (measurePhase reads) = 0 \<and> apparentPower (measurePhase reads) = 0 \<and>
      reactivePower (measurePhase reads) = 0 \<and> powerFactor (measurePhase reads) = 0)"
proof -
  have "currentRms (measurePhase reads) \<le> 5 / 100"
    if "currentRms (measurePhase reads) \<le> 5 / 100 \<or> apparentPower (measurePhase reads) \<le> 0"
    using that live_apparentPower_pos [of reads] by fastforce
  then have "currentRms (measurePhase reads) \<le> 5 / 100 \<or> apparentPower (measurePhase reads) \<le> 0 \<longrightarrow>
      realPower (measurePhase reads) = 0 \<and> apparentPower (measurePhase reads) = 0 \<and>
      reactivePower (measurePhase reads) = 0 \<and> powerFactor (measurePhase reads) = 0"
    unfolding measurePhase_def
    using finish_idle [of "sample_loop reads totalSamples"] by blast
  then show ?thesis
    using measurePhase_chk_ok [of reads] by blast
qed

text \<open>A stream just above mid-scale on the current channel: about 6 mA.\<close>

theorem no_unguarded_division_witness:
  "measurePhase_chk (const_reads 4095 2048) = Some (measurePhase (const_reads 4095 2048)) \<and>
   currentRms (measurePhase (const_reads 4095 2048)) \<le> 5 / 100 \<and>
   realPower (measurePhase (const_reads 4095 2048)) = 0 \<and>
   apparentPower (measurePhase (const_reads 4095 2048)) = 0 \<and>
   reactivePower (measurePhase (const_reads 4095 2048)) = 0 \<and>
   powerFactor (measurePhase (const_reads 4095 2048)) = 0"
proof -
  have "sample_current 2048 = 1 / 1638 * (10 :: real)"
    by (simp add: sample_current_def ACS712_OFFSET_def ACS712_SENSITIVITY_def ADC_VREF_def
        ADC_MAX_def)
  then have h: "currentRms (measurePhase (const_reads 4095 2048)) \<le> 5 / 100"
    by (simp add: currentRms_const)
  then have d: "currentRms (measurePhase (const_reads 4095 2048)) \<le> 5 / 100 \<or>
      apparentPower (measurePhase (const_reads 4095 2048)) \<le> 0"
    by (rule disjI1)
  show ?thesis
    using h no_unguarded_division [of "const_reads 4095 2048", THEN conjunct1]
      no_unguarded_division [of "const_reads 4095 2048", THEN conjunct2, THEN mp, OF d]
    by blast
qed

text \<open>
  C6, as stated, has every degenerate input resolve to the all-zero record. The
  stream that reads voltage code 0 and current code 2047 is in the dead-band, and its
  record carries the RMS voltage \<open>1.65 * VOLTAGE_CALIBRATION\<close>.
\<close>

theorem all_zero_counterexample:
  "currentRms (measurePhase (const_reads 0 2047)) \<le> 5 / 100 \<and>
   measurePhase (const_reads 0 2047) \<noteq> result_init"
proof -
  have h: "currentRms (measurePhase (const_reads 0 2047)) \<le> 5 / 100"
    by (simp add: currentRms_const sample_current_2047)
  have "voltageRms (measurePhase (const_reads 0 2047)) = 165 / 100 * VOLTAGE_CALIBRATION"
    by (simp add: voltageRms_const sample_v_0)
  then have "voltageRms (measurePhase (const_reads 0 2047)) \<noteq> voltageRms result_init"
    by (simp add: result_init_def VOLTAGE_CALIBRATION_def)
  then have "measurePhase (const_reads 0 2047) \<noteq> result_init"
    by auto
  with h show ?thesis by blast
qed

section \<open>Clamping\<close>

text \<open>
  C10. For every real \<open>x\<close>, taking the absolute value of \<open>x\<close> constrained to \<open>[-1, 1]\<close>
  (the per-phase clamping) gives the same as constraining the absolute value of \<open>x\<close> to
  \<open>[0, 1]\<close> (the overall clamping).
\<close>

theorem clamp_forms_agree: "abs_f (constrain x (- 1) 1) = constrain (abs_f x) 0 1"
  by (simp add: abs_f_def constrain_def)

end
